theory Spec2Isabelle
  imports Complex_Main "HOL-Library.Word"
begin

section \<open>Cerber: the license key authentication API (\<^verbatim>\<open>CerberAuth.py\<close>)\<close>

text \<open>
  A shallow embedding of the license server: the SQLite store \<^verbatim>\<open>LicenseDB\<close>, the
  counters \<^verbatim>\<open>APIStats\<close>, the key generator, the expiry test and the request handlers
  \<^verbatim>\<open>verify_license\<close>, \<^verbatim>\<open>generate_license\<close>, \<^verbatim>\<open>get_key_info\<close> behind the decorator
  \<^verbatim>\<open>require_admin_key\<close>.

  Conventions. Python strings are \<open>string\<close> (ASCII text). Python integers are \<open>int\<close>.
  A handler is a function of the request, of what the outside world supplies during that
  request (the clock, the random bytes, the geo lookup, whether a SQL statement raises) and
  of the server state; it returns the response together with the new state. Every
  \<^verbatim>\<open>raise\<close> and every \<^verbatim>\<open>except\<close> of the source is a branch of the model.
\<close>

subsection \<open>String methods of Python used by the source\<close>

text \<open>\<^verbatim>\<open>s.startswith(p)\<close>.\<close>

definition startswith :: "string \<Rightarrow> string \<Rightarrow> bool" where
  "startswith s p = (take (length p) s = p)"

text \<open>\<^verbatim>\<open>s.split(sep)\<close> for a one-character separator: the pieces between the
  occurrences of the separator, empty pieces kept; never the empty list.\<close>

fun split_on :: "char \<Rightarrow> string \<Rightarrow> string list" where
  "split_on sep [] = [[]]"
| "split_on sep (c # cs) =
     (if c = sep then [] # split_on sep cs
      else (case split_on sep cs of
              [] \<Rightarrow> [[c]]
            | p # ps \<Rightarrow> (c # p) # ps))"

text \<open>\<^verbatim>\<open>xs[i]\<close>: \<open>None\<close> stands for \<^verbatim>\<open>IndexError\<close>.\<close>

fun index :: "'a list \<Rightarrow> nat \<Rightarrow> 'a option" where
  "index [] i = None"
| "index (x # xs) 0 = Some x"
| "index (x # xs) (Suc i) = index xs i"

text \<open>\<^verbatim>\<open>s.upper()\<close> on ASCII text: the letters a to z change, nothing else does.\<close>

definition upper_char :: "char \<Rightarrow> char" where
  "upper_char c =
     (case map_of (zip ''abcdefghijklmnopqrstuvwxyz'' ''ABCDEFGHIJKLMNOPQRSTUVWXYZ'') c of
        None \<Rightarrow> c
      | Some u \<Rightarrow> u)"

definition upper :: "string \<Rightarrow> string" where
  "upper s = map upper_char s"

text \<open>\<^verbatim>\<open>s.rstrip(b'=')\<close>: trailing occurrences of one character removed.\<close>

definition rstrip :: "char \<Rightarrow> string \<Rightarrow> string" where
  "rstrip c s = rev (dropWhile (\<lambda>x. x = c) (rev s))"

subsection \<open>The key generator\<close>

text \<open>
  \<^verbatim>\<open>generate_license_key\<close> returns \<^verbatim>\<open>f"LIC-{secrets.token_urlsafe(16).upper()}"\<close>, and
  the standard library's \<^verbatim>\<open>token_urlsafe(n)\<close> is
  \<^verbatim>\<open>base64.urlsafe_b64encode(token_bytes(n)).rstrip(b'=').decode('ascii')\<close>.
  The bytes \<^verbatim>\<open>token_bytes(16)\<close> draws from the operating system are the argument \<open>tok\<close>
  of the model; they are the only source of variation in a key.
\<close>

type_synonym byte = "8 word"

definition b64_alphabet :: string where
  "b64_alphabet = ''ABCDEFGHIJKLMNOPQRSTUVWXYZabcdefghijklmnopqrstuvwxyz0123456789-_''"

text \<open>The character of a six-bit value in the URL-safe alphabet. The encoder only
  passes values below 64; \<open>mod 64\<close> keeps the lookup inside the alphabet.\<close>

definition b64_char :: "nat \<Rightarrow> char" where
  "b64_char n = b64_alphabet ! (n mod 64)"

text \<open>Three bytes give four characters; a last group of one or two bytes is padded
  with \<open>=\<close>.\<close>

fun urlsafe_b64encode :: "byte list \<Rightarrow> string" where
  "urlsafe_b64encode [] = []"
| "urlsafe_b64encode [a] =
     [b64_char (unat a div 4), b64_char ((unat a mod 4) * 16), CHR ''='', CHR ''='']"
| "urlsafe_b64encode [a, b] =
     [b64_char (unat a div 4), b64_char ((unat a mod 4) * 16 + unat b div 16),
      b64_char ((unat b mod 16) * 4), CHR ''='']"
| "urlsafe_b64encode (a # b # c # rest) =
     [b64_char (unat a div 4), b64_char ((unat a mod 4) * 16 + unat b div 16),
      b64_char ((unat b mod 16) * 4 + unat c div 64), b64_char (unat c mod 64)]
     @ urlsafe_b64encode rest"

definition token_urlsafe :: "byte list \<Rightarrow> string" where
  "token_urlsafe tok = rstrip (CHR ''='') (urlsafe_b64encode tok)"

definition generate_license_key :: "byte list \<Rightarrow> string" where
  "generate_license_key tok = ''LIC-'' @ upper (token_urlsafe tok)"

text \<open>The characters that the URL-safe alphabet leaves after \<^verbatim>\<open>upper()\<close>: 38 of
  its 64.\<close>

definition upper_alphabet :: string where
  "upper_alphabet = ''ABCDEFGHIJKLMNOPQRSTUVWXYZ0123456789-_''"

text \<open>
  For counting keys: the six-bit values that the encoder turns into characters (the
  padding left out), the bytes of given six-bit values, and the character a six-bit
  value has in a key. The lists of six-bit values of 16 bytes have 21 free values and a
  last one that holds two bits; the part of a key after its prefix has 21 characters of
  the upper-case alphabet and a last one out of four.
\<close>

fun sextets :: "byte list \<Rightarrow> nat list" where
  "sextets [] = []"
| "sextets [a] = [unat a div 4, (unat a mod 4) * 16]"
| "sextets [a, b] =
     [unat a div 4, (unat a mod 4) * 16 + unat b div 16, (unat b mod 16) * 4]"
| "sextets (a # b # c # rest) =
     [unat a div 4, (unat a mod 4) * 16 + unat b div 16,
      (unat b mod 16) * 4 + unat c div 64, unat c mod 64] @ sextets rest"

fun unsextets :: "nat list \<Rightarrow> byte list" where
  "unsextets (v1 # v2 # v3 # v4 # rest) =
     [of_nat (v1 * 4 + v2 div 16), of_nat ((v2 mod 16) * 16 + v3 div 4),
      of_nat ((v3 mod 4) * 64 + v4)] @ unsextets rest"
| "unsextets [v1, v2, v3] =
     [of_nat (v1 * 4 + v2 div 16), of_nat ((v2 mod 16) * 16 + v3 div 4)]"
| "unsextets [v1, v2] = [of_nat (v1 * 4 + v2 div 16)]"
| "unsextets vs = []"

definition sextet_lists :: "nat list set" where
  "sextet_lists =
     (\<lambda>(vs, w). vs @ [w]) ` ({vs. set vs \<subseteq> {..<64} \<and> length vs = 21} \<times> {0, 16, 32, 48})"

definition key_char :: "nat \<Rightarrow> char" where
  "key_char n = upper_char (b64_char n)"

definition key_bodies :: "string set" where
  "key_bodies =
     (\<lambda>(cs, c). cs @ [c]) ` ({cs. set cs \<subseteq> set upper_alphabet \<and> length cs = 21}
        \<times> set ''AQGW'')"


subsection \<open>Dates: \<^verbatim>\<open>datetime\<close>, \<^verbatim>\<open>strptime\<close> and \<^verbatim>\<open>is_expired\<close>\<close>

text \<open>A naive \<^verbatim>\<open>datetime\<close> object. Python compares two of them as the tuples of their
  seven fields, most significant first.\<close>

record datetime =
  year :: nat
  month :: nat
  day :: nat
  hour :: nat
  minute :: nat
  second :: nat
  microsecond :: nat

fun tuple_gt :: "nat list \<Rightarrow> nat list \<Rightarrow> bool" where
  "tuple_gt [] ys = False"
| "tuple_gt (x # xs) [] = True"
| "tuple_gt (x # xs) (y # ys) = (y < x \<or> (x = y \<and> tuple_gt xs ys))"

definition getstate :: "datetime \<Rightarrow> nat list" where
  "getstate t = [year t, month t, day t, hour t, minute t, second t, microsecond t]"

definition datetime_gt :: "datetime \<Rightarrow> datetime \<Rightarrow> bool" where
  "datetime_gt a b = tuple_gt (getstate a) (getstate b)"

text \<open>
  \<^verbatim>\<open>datetime.strptime(s, "%Y-%m-%d")\<close>. The standard library matches \<open>s\<close> from its
  start against the regular expression
  \<^verbatim>\<open>(?P<Y>\d\d\d\d)-(?P<m>1[0-2]|0[1-9]|[1-9])-(?P<d>3[0-1]|[1-2]\d|0[1-9]|[1-9]| [1-9])\<close>,
  raises \<^verbatim>\<open>ValueError\<close> when there is no match or when text remains after the match, and
  raises \<^verbatim>\<open>ValueError\<close> again when year, month and day are no date of the calendar
  (the year 0, the 30th of February). \<open>None\<close> stands for \<^verbatim>\<open>ValueError\<close>. The
  alternatives of a group are tried in order; a later alternative of \<open>m\<close> can never
  succeed where an earlier one matched and the following \<open>-\<close> did not, so the first
  alternative that matches decides.
\<close>

definition is_digit :: "char \<Rightarrow> bool" where
  "is_digit c = (c \<in> set ''0123456789'')"

definition is_digit19 :: "char \<Rightarrow> bool" where
  "is_digit19 c = (c \<in> set ''123456789'')"

definition digit_val :: "char \<Rightarrow> nat" where
  "digit_val c = of_char c - 48"

text \<open>The group \<open>m\<close>: the month and the rest of the text.\<close>

fun match_m :: "string \<Rightarrow> (nat \<times> string) option" where
  "match_m (a # b # r) =
     (if a = CHR ''1'' \<and> b \<in> set ''012'' then Some (10 + digit_val b, r)
      else if a = CHR ''0'' \<and> is_digit19 b then Some (digit_val b, r)
      else if is_digit19 a then Some (digit_val a, b # r)
      else None)"
| "match_m [a] = (if is_digit19 a then Some (digit_val a, []) else None)"
| "match_m [] = None"

text \<open>The group \<open>d\<close>: the day and the rest of the text.\<close>

fun match_d :: "string \<Rightarrow> (nat \<times> string) option" where
  "match_d (a # b # r) =
     (if a = CHR ''3'' \<and> b \<in> set ''01'' then Some (30 + digit_val b, r)
      else if a \<in> set ''12'' \<and> is_digit b then Some (10 * digit_val a + digit_val b, r)
      else if a = CHR ''0'' \<and> is_digit19 b then Some (digit_val b, r)
      else if is_digit19 a then Some (digit_val a, b # r)
      else if a = CHR '' '' \<and> is_digit19 b then Some (digit_val b, r)
      else None)"
| "match_d [a] = (if is_digit19 a then Some (digit_val a, []) else None)"
| "match_d [] = None"

definition is_leap :: "nat \<Rightarrow> bool" where
  "is_leap y = (y mod 4 = 0 \<and> (0 < y mod 100 \<or> y mod 400 = 0))"

definition days_in_month :: "nat \<Rightarrow> nat \<Rightarrow> nat" where
  "days_in_month y m =
     (if m = 2 then (if is_leap y then 29 else 28)
      else if m \<in> set [4, 6, 9, 11] then 30 else 31)"

text \<open>The constructor \<^verbatim>\<open>datetime(y, m, d)\<close>: midnight of a date of the calendar,
  \<^verbatim>\<open>ValueError\<close> otherwise.\<close>

definition make_date :: "nat \<Rightarrow> nat \<Rightarrow> nat \<Rightarrow> datetime option" where
  "make_date y m d =
     (if 1 \<le> y \<and> y \<le> 9999 \<and> 1 \<le> m \<and> m \<le> 12 \<and> 1 \<le> d \<and> d \<le> days_in_month y m
      then Some \<lparr>year = y, month = m, day = d, hour = 0, minute = 0, second = 0,
                 microsecond = 0\<rparr>
      else None)"

definition strptime :: "string \<Rightarrow> datetime option" where
  "strptime s =
     (case s of
        y1 # y2 # y3 # y4 # dash1 # r1 \<Rightarrow>
          (if is_digit y1 \<and> is_digit y2 \<and> is_digit y3 \<and> is_digit y4 \<and> dash1 = CHR ''-''
           then (case match_m r1 of
                   Some (m, dash2 # r2) \<Rightarrow>
                     (if dash2 = CHR ''-''
                      then (case match_d r2 of
                              Some (d, []) \<Rightarrow>
                                make_date
                                  (1000 * digit_val y1 + 100 * digit_val y2
                                     + 10 * digit_val y3 + digit_val y4) m d
                            | _ \<Rightarrow> None)
                      else None)
                 | _ \<Rightarrow> None)
           else None)
      | _ \<Rightarrow> None)"

text \<open>
  \<^verbatim>\<open>is_expired\<close>: the stored text is parsed, and the clock \<^verbatim>\<open>datetime.now()\<close> (the
  argument \<open>now\<close>) is compared with midnight at the start of that date. Any exception
  gives \<^verbatim>\<open>True\<close>.
\<close>

definition is_expired :: "datetime \<Rightarrow> string \<Rightarrow> bool" where
  "is_expired now expires_at =
     (case strptime expires_at of
        None \<Rightarrow> True
      | Some expiry_date \<Rightarrow> datetime_gt now expiry_date)"

subsection \<open>The store: \<^verbatim>\<open>LicenseDB\<close>\<close>

text \<open>
  A value that SQLite stores in a nullable TEXT column, and equally a JSON value that is
  a string or \<^verbatim>\<open>null\<close>, is a \<open>string option\<close>: \<open>None\<close> is \<^verbatim>\<open>NULL\<close> in the
  table, \<^verbatim>\<open>None\<close> in Python and \<^verbatim>\<open>null\<close> in JSON. JSON values of other types
  (numbers, lists, objects) are outside this model.

  The table \<^verbatim>\<open>licenses\<close> has \<^verbatim>\<open>key\<close> as its primary key, so it is a map from keys to
  rows; \<^verbatim>\<open>usage_logs\<close> is append-only, so it is a list, oldest row first. The column
  \<^verbatim>\<open>created_at\<close> is never read and is left out. A timestamp is a number that grows with
  time, as the fixed-width text of SQLite's \<^verbatim>\<open>CURRENT_TIMESTAMP\<close> does.
\<close>

record license =
  lic_hwid :: "string option"
  lic_expires_at :: string
  lic_plan :: "string option"

record usage_event =
  log_license_key :: "string option"
  log_ip_address :: string
  log_user_agent :: string
  log_hwid :: "string option"
  log_geo_country :: string
  log_timestamp :: nat

record license_db =
  licenses :: "string \<rightharpoonup> license"
  usage_logs :: "usage_event list"

text \<open>\<^verbatim>\<open>add_license\<close>: the insert fails with \<^verbatim>\<open>IntegrityError\<close> on a key that is
  present, and the method then returns \<^verbatim>\<open>False\<close>.\<close>

definition add_license ::
  "license_db \<Rightarrow> string \<Rightarrow> string option \<Rightarrow> string \<Rightarrow> string option \<Rightarrow> bool \<times> license_db" where
  "add_license d key hwid expires_at plan =
     (case licenses d key of
        Some row \<Rightarrow> (False, d)
      | None \<Rightarrow>
          (True, d\<lparr>licenses := (licenses d)
             (key \<mapsto> \<lparr>lic_hwid = hwid, lic_expires_at = expires_at, lic_plan = plan\<rparr>)\<rparr>))"

text \<open>\<^verbatim>\<open>get_license\<close>: \<^verbatim>\<open>WHERE key = ?\<close> selects nothing when the parameter is
  \<^verbatim>\<open>NULL\<close>.\<close>

definition get_license :: "license_db \<Rightarrow> string option \<Rightarrow> license option" where
  "get_license d key = (case key of None \<Rightarrow> None | Some k \<Rightarrow> licenses d k)"

text \<open>The statement \<^verbatim>\<open>UPDATE licenses SET hwid = ? WHERE key = ?\<close> that
  \<^verbatim>\<open>verify_license\<close> issues itself (lines 291 to 295): it writes whatever the
  column holds at that moment.\<close>

definition update_hwid :: "license_db \<Rightarrow> string option \<Rightarrow> string option \<Rightarrow> license_db" where
  "update_hwid d key hwid =
     (case key of
        None \<Rightarrow> d
      | Some k \<Rightarrow>
          (case licenses d k of
             None \<Rightarrow> d
           | Some row \<Rightarrow> d\<lparr>licenses := (licenses d)(k \<mapsto> row\<lparr>lic_hwid := hwid\<rparr>)\<rparr>))"

text \<open>\<^verbatim>\<open>log_usage\<close>: one row appended, stamped by the database.\<close>

definition log_usage ::
  "license_db \<Rightarrow> string option \<Rightarrow> string \<Rightarrow> string \<Rightarrow> string option \<Rightarrow> string \<Rightarrow> nat \<Rightarrow> license_db" where
  "log_usage d license_key ip user_agent hwid geo_country stamp =
     d\<lparr>usage_logs := usage_logs d @
        [\<lparr>log_license_key = license_key, log_ip_address = ip, log_user_agent = user_agent,
          log_hwid = hwid, log_geo_country = geo_country, log_timestamp = stamp\<rparr>]\<rparr>"

text \<open>
  \<^verbatim>\<open>get_usage_info\<close>: the rows of one key, grouped. No row gives no group, and
  \<^verbatim>\<open>fetchone\<close> then returns \<^verbatim>\<open>None\<close>. The table \<^verbatim>\<open>licenses\<close> is not read. The
  four columns selected outside an aggregate come from a row of the group that SQLite
  chooses; the choice is the argument \<open>pick\<close>.
\<close>

record usage_info =
  info_ip :: string
  info_user_agent :: string
  info_hwid :: "string option"
  info_geo_country :: string
  first_login :: nat
  last_login :: nat
  login_count :: int

definition get_usage_info ::
  "(usage_event list \<Rightarrow> usage_event) \<Rightarrow> license_db \<Rightarrow> string \<Rightarrow> usage_info option" where
  "get_usage_info pick d license_key =
     (case filter (\<lambda>r. log_license_key r = Some license_key) (usage_logs d) of
        [] \<Rightarrow> None
      | r # rs \<Rightarrow>
          Some \<lparr>info_ip = log_ip_address (pick (r # rs)),
                info_user_agent = log_user_agent (pick (r # rs)),
                info_hwid = log_hwid (pick (r # rs)),
                info_geo_country = log_geo_country (pick (r # rs)),
                first_login = fold min (map log_timestamp rs) (log_timestamp r),
                last_login = fold max (map log_timestamp rs) (log_timestamp r),
                login_count = int (length (r # rs))\<rparr>)"

subsection \<open>The counters: \<^verbatim>\<open>APIStats\<close>\<close>

text \<open>Every method holds the lock for its whole body, so each is one atomic step on
  the counters. \<^verbatim>\<open>start_time\<close> and the uptime it yields are left out.\<close>

record api_stats =
  request_count :: int
  verify_requests :: int
  admin_requests :: int
  error_count :: int
  active_licenses :: int

definition init_stats :: api_stats where
  "init_stats = \<lparr>request_count = 0, verify_requests = 0, admin_requests = 0,
                  error_count = 0, active_licenses = 0\<rparr>"

definition increment_request :: "api_stats \<Rightarrow> string \<Rightarrow> api_stats" where
  "increment_request s endpoint_type =
     (let s1 = s\<lparr>request_count := request_count s + 1\<rparr>
      in if endpoint_type = ''verify'' then s1\<lparr>verify_requests := verify_requests s1 + 1\<rparr>
         else if endpoint_type = ''admin'' then s1\<lparr>admin_requests := admin_requests s1 + 1\<rparr>
         else s1)"

definition increment_error :: "api_stats \<Rightarrow> api_stats" where
  "increment_error s = s\<lparr>error_count := error_count s + 1\<rparr>"

text \<open>
  \<^verbatim>\<open>get_stats\<close>. The source computes
  \<^verbatim>\<open>(request_count - error_count) / max(request_count, 1) * 100\<close> in floating point and
  prints it with one decimal and a percent sign; \<open>success_rate\<close> is that quotient as an
  exact rational number, before the rounding.
\<close>

record stats_view =
  total_requests :: int
  view_verify_requests :: int
  view_admin_requests :: int
  view_error_count :: int
  success_rate :: rat

definition get_stats :: "api_stats \<Rightarrow> stats_view" where
  "get_stats s =
     \<lparr>total_requests = request_count s,
      view_verify_requests = verify_requests s,
      view_admin_requests = admin_requests s,
      view_error_count = error_count s,
      success_rate =
        of_int (request_count s - error_count s) / of_int (max (request_count s) 1) * 100\<rparr>"

subsection \<open>Requests, the outside world, responses\<close>

text \<open>What \<^verbatim>\<open>request.get_json()\<close> gives: it raises on a body that is not JSON, it
  returns \<^verbatim>\<open>None\<close> for the body \<^verbatim>\<open>null\<close>, and otherwise the handlers are modelled for
  a JSON object, a dictionary from names to values.\<close>

datatype json_body =
    Unparsable
  | JsonNone
  | JsonDict "(string \<times> string option) list"

record request =
  authorization :: "string option"
  get_json :: json_body
  key_arg :: "string option"
  x_forwarded_for :: "string option"
  remote_addr :: string
  header_user_agent :: "string option"

text \<open>The SQL statements of the handlers; each can raise \<^verbatim>\<open>sqlite3.Error\<close> (a locked
  or full database), and then changes nothing.\<close>

datatype sql_op = SelectLicense | UpdateHwid | InsertUsage | InsertLicense | SelectUsage

text \<open>What the outside world supplies while one request is handled.\<close>

record env =
  now :: datetime
  token_bytes :: "byte list"
  get_country :: "string \<Rightarrow> string"
  current_timestamp :: nat
  raises :: "sql_op \<Rightarrow> bool"
  bare_row :: "usage_event list \<Rightarrow> usage_event"

record state =
  db :: license_db
  stats :: api_stats

text \<open>A response: the JSON payloads of the successes, and \<open>Error msg code\<close> for
  \<^verbatim>\<open>{"error": msg}\<close> with HTTP status \<open>code\<close>. \<open>Uncaught\<close> is an exception
  that leaves a handler; Flask answers it itself.\<close>

datatype response =
    Valid string "string option"
  | Generated string string
  | NoKeyInfo
  | KeyInfo usage_info
  | Error string nat
  | Uncaught

text \<open>The outcomes as the specification names them.\<close>

abbreviation BadRequest :: response where
  "BadRequest \<equiv> Error ''Missing required fields'' 400"

abbreviation NotFound :: response where
  "NotFound \<equiv> Error ''Key not found'' 401"

abbreviation Expired :: response where
  "Expired \<equiv> Error ''License expired'' 410"

abbreviation HwidMismatch :: response where
  "HwidMismatch \<equiv> Error ''HWID mismatch'' 403"

abbreviation Internal :: response where
  "Internal \<equiv> Error ''Internal server error'' 500"

text \<open>\<^verbatim>\<open>stats.increment_error()\<close> followed by \<^verbatim>\<open>return jsonify({"error": msg}), code\<close>.\<close>

definition error_response :: "string \<Rightarrow> nat \<Rightarrow> state \<Rightarrow> response \<times> state" where
  "error_response msg code st = (Error msg code, st\<lparr>stats := increment_error (stats st)\<rparr>)"

subsection \<open>The decorator \<^verbatim>\<open>require_admin_key\<close>\<close>

text \<open>
  The secret \<^verbatim>\<open>admin_key\<close> is drawn once at start-up; it is the first argument. The
  decorated function reads the header \<^verbatim>\<open>Authorization\<close> (the empty string when it is
  absent), takes the second piece of its split at spaces as the token, and calls the
  wrapped function \<open>f\<close> only after \<^verbatim>\<open>stats.increment_request("admin")\<close>. It has no
  \<^verbatim>\<open>try\<close>: an \<^verbatim>\<open>IndexError\<close> of \<^verbatim>\<open>split(' ')[1]\<close> would leave it.
\<close>

definition require_admin_key ::
  "string \<Rightarrow> (request \<Rightarrow> env \<Rightarrow> state \<Rightarrow> response \<times> state)
     \<Rightarrow> request \<Rightarrow> env \<Rightarrow> state \<Rightarrow> response \<times> state" where
  "require_admin_key admin_key f req e st =
     (let auth_header = (case authorization req of None \<Rightarrow> [] | Some h \<Rightarrow> h)
      in if \<not> startswith auth_header ''Bearer ''
         then error_response ''Missing or invalid authorization header'' 401 st
         else (case index (split_on (CHR '' '') auth_header) 1 of
                 None \<Rightarrow> (Uncaught, st)
               | Some token \<Rightarrow>
                   if token \<noteq> admin_key
                   then error_response ''Invalid admin key'' 401 st
                   else f req e (st\<lparr>stats := increment_request (stats st) ''admin''\<rparr>)))"

subsection \<open>\<^verbatim>\<open>verify_license\<close>\<close>

text \<open>
  Lines 300 to 311: the usage row is written, the request is counted as a verify
  request, and the answer is built from the dictionary \<open>license_info\<close> read at
  line 281. An exception of \<^verbatim>\<open>log_usage\<close> reaches the handler's \<^verbatim>\<open>except\<close>.
\<close>

definition log_and_answer ::
  "string option \<Rightarrow> string option \<Rightarrow> license \<Rightarrow> request \<Rightarrow> env \<Rightarrow> state \<Rightarrow> response \<times> state" where
  "log_and_answer license_key hwid license_info req e st =
     (let ip = (case x_forwarded_for req of None \<Rightarrow> remote_addr req | Some a \<Rightarrow> a);
          user_agent = (case header_user_agent req of None \<Rightarrow> ''Unknown'' | Some a \<Rightarrow> a);
          geo_country = get_country e ip
      in if raises e InsertUsage
         then error_response ''Internal server error'' 500 st
         else (Valid (lic_expires_at license_info) (lic_plan license_info),
               st\<lparr>db := log_usage (db st) license_key ip user_agent hwid geo_country
                           (current_timestamp e),
                  stats := increment_request (stats st) ''verify''\<rparr>))"

text \<open>
  Lines 282 to 298, then the above: what the handler does with the dictionary it has
  read. The test \<^verbatim>\<open>license_info['hwid'] is None\<close> looks at that dictionary; the
  \<^verbatim>\<open>UPDATE\<close> writes to the table.
\<close>

definition bind_and_log ::
  "string option \<Rightarrow> string option \<Rightarrow> license option \<Rightarrow> request \<Rightarrow> env \<Rightarrow> state
     \<Rightarrow> response \<times> state" where
  "bind_and_log license_key hwid found req e st =
     (case found of
        None \<Rightarrow> error_response ''Key not found'' 401 st
      | Some license_info \<Rightarrow>
          if is_expired (now e) (lic_expires_at license_info)
          then error_response ''License expired'' 410 st
          else (case lic_hwid license_info of
                  None \<Rightarrow>
                    if raises e UpdateHwid
                    then error_response ''Internal server error'' 500 st
                    else log_and_answer license_key hwid license_info req e
                           (st\<lparr>db := update_hwid (db st) license_key hwid\<rparr>)
                | Some bound \<Rightarrow>
                    if Some bound \<noteq> hwid
                    then error_response ''HWID mismatch'' 403 st
                    else log_and_answer license_key hwid license_info req e st))"

text \<open>
  Lines 273 to 281: the body is read and the license is looked up. The result is
  either the response of an early return (\<open>Inl\<close>) or the key, the hardware id and the
  dictionary \<^verbatim>\<open>license_info\<close> that the rest of the handler works with (\<open>Inr\<close>).
\<close>

definition lookup ::
  "request \<Rightarrow> env \<Rightarrow> state
     \<Rightarrow> (response \<times> state) + (string option \<times> string option \<times> license option)" where
  "lookup req e st =
     (case get_json req of
        Unparsable \<Rightarrow> Inl (error_response ''Internal server error'' 500 st)
      | JsonNone \<Rightarrow> Inl (error_response ''Missing required fields'' 400 st)
      | JsonDict data \<Rightarrow>
          (case (map_of data ''key'', map_of data ''hwid'') of
             (Some license_key, Some hwid) \<Rightarrow>
               if raises e SelectLicense
               then Inl (error_response ''Internal server error'' 500 st)
               else Inr (license_key, hwid, get_license (db st) license_key)
           | _ \<Rightarrow> Inl (error_response ''Missing required fields'' 400 st)))"

text \<open>The handler, run without interruption.\<close>

definition verify_license :: "request \<Rightarrow> env \<Rightarrow> state \<Rightarrow> response \<times> state" where
  "verify_license req e st =
     (case lookup req e st of
        Inl early \<Rightarrow> early
      | Inr (license_key, hwid, found) \<Rightarrow> bind_and_log license_key hwid found req e st)"

subsection \<open>\<^verbatim>\<open>generate_license\<close> and \<^verbatim>\<open>get_key_info\<close>\<close>

text \<open>The function bodies as written, and the routes: the bodies under the decorator.
  \<^verbatim>\<open>strptime\<close> of a JSON \<^verbatim>\<open>null\<close> raises \<^verbatim>\<open>TypeError\<close>, which only the outer
  \<^verbatim>\<open>except\<close> catches.\<close>

definition generate_license :: "request \<Rightarrow> env \<Rightarrow> state \<Rightarrow> response \<times> state" where
  "generate_license req e st =
     (case get_json req of
        Unparsable \<Rightarrow> error_response ''Internal server error'' 500 st
      | JsonNone \<Rightarrow> error_response ''Missing required fields'' 400 st
      | JsonDict data \<Rightarrow>
          (case (map_of data ''expires_at'', map_of data ''hwid'') of
             (Some expires_at, Some hwid) \<Rightarrow>
               (case expires_at of
                  None \<Rightarrow> error_response ''Internal server error'' 500 st
                | Some date_text \<Rightarrow>
                    (case strptime date_text of
                       None \<Rightarrow> error_response ''Invalid date format. Use YYYY-MM-DD'' 400 st
                     | Some parsed \<Rightarrow>
                         (let license_key = generate_license_key (token_bytes e);
                              plan = (case map_of data ''plan'' of
                                        None \<Rightarrow> Some ''basic''
                                      | Some p \<Rightarrow> p)
                          in if raises e InsertLicense
                             then error_response ''Internal server error'' 500 st
                             else (case add_license (db st) license_key hwid date_text plan of
                                     (True, d) \<Rightarrow>
                                       (Generated license_key date_text, st\<lparr>db := d\<rparr>)
                                   | (False, d) \<Rightarrow>
                                       error_response ''Failed to generate license'' 500
                                         (st\<lparr>db := d\<rparr>)))))
           | _ \<Rightarrow> error_response ''Missing required fields'' 400 st))"

definition get_key_info :: "request \<Rightarrow> env \<Rightarrow> state \<Rightarrow> response \<times> state" where
  "get_key_info req e st =
     (case key_arg req of
        None \<Rightarrow> error_response ''Missing license key parameter'' 400 st
      | Some license_key \<Rightarrow>
          if license_key = []
          then error_response ''Missing license key parameter'' 400 st
          else if raises e SelectUsage
          then error_response ''Internal server error'' 500 st
          else (case get_usage_info (bare_row e) (db st) license_key of
                  None \<Rightarrow> (NoKeyInfo, st)
                | Some usage \<Rightarrow> (KeyInfo usage, st)))"

definition api_generate :: "string \<Rightarrow> request \<Rightarrow> env \<Rightarrow> state \<Rightarrow> response \<times> state" where
  "api_generate admin_key = require_admin_key admin_key generate_license"

definition api_keyinfo :: "string \<Rightarrow> request \<Rightarrow> env \<Rightarrow> state \<Rightarrow> response \<times> state" where
  "api_keyinfo admin_key = require_admin_key admin_key get_key_info"

subsection \<open>Requests handled at the same time\<close>

text \<open>
  Flask's server handles each request in a thread of its own. Every statement is sent
  to SQLite on a connection of its own and committed at once, and every method of
  \<^verbatim>\<open>APIStats\<close> holds the lock, so a thread that handles \<^verbatim>\<open>/verify\<close> touches the shared
  state in two steps: the \<^verbatim>\<open>SELECT\<close> of line 281, and everything after it. Between
  the two, other threads may run. A schedule names, step by step, the thread that moves.
\<close>

datatype thread =
    Arrived request env
  | Looked "string option" "string option" "license option" request env
  | Answered response

fun thread_step :: "thread \<Rightarrow> state \<Rightarrow> thread \<times> state" where
  "thread_step (Arrived req e) st =
     (case lookup req e st of
        Inl (r, st') \<Rightarrow> (Answered r, st')
      | Inr (license_key, hwid, found) \<Rightarrow> (Looked license_key hwid found req e, st))"
| "thread_step (Looked license_key hwid found req e) st =
     (case bind_and_log license_key hwid found req e st of
        (r, st') \<Rightarrow> (Answered r, st'))"
| "thread_step (Answered r) st = (Answered r, st)"

fun run_schedule :: "nat list \<Rightarrow> thread list \<Rightarrow> state \<Rightarrow> thread list \<times> state" where
  "run_schedule [] ts st = (ts, st)"
| "run_schedule (i # sched) ts st =
     (if i < length ts
      then (case thread_step (ts ! i) st of
              (t, st') \<Rightarrow> run_schedule sched (ts[i := t]) st')
      else run_schedule sched ts st)"

text \<open>What a thread has answered, if it has.\<close>

definition answer :: "thread \<Rightarrow> response option" where
  "answer t = (case t of Answered r \<Rightarrow> Some r | _ \<Rightarrow> None)"

subsection \<open>Requests handled one after another\<close>

text \<open>Calls of \<^verbatim>\<open>/verify\<close> served in turn, each on the state the one before has left,
  and the test whether a response is the success \<^verbatim>\<open>{"valid": true, ...}\<close>.\<close>

definition is_valid :: "response \<Rightarrow> bool" where
  "is_valid r = (case r of Valid x y \<Rightarrow> True | _ \<Rightarrow> False)"

fun serve :: "(request \<times> env) list \<Rightarrow> state \<Rightarrow> response list \<times> state" where
  "serve [] st = ([], st)"
| "serve ((req, e) # calls) st =
     (case verify_license req e st of
        (r, st') \<Rightarrow> (case serve calls st' of (rs, st'') \<Rightarrow> (r # rs, st'')))"

subsection \<open>Notions of the specification, and values to run the handlers on\<close>

text \<open>The bearer credential of a request: the token that follows \<^verbatim>\<open>Bearer\<close> in the
  header \<^verbatim>\<open>Authorization\<close>, absent when the header is missing or of another form.\<close>

definition bearer_credential :: "request \<Rightarrow> string option" where
  "bearer_credential req =
     (case authorization req of
        None \<Rightarrow> None
      | Some h \<Rightarrow> if startswith h ''Bearer '' then index (split_on (CHR '' '') h) 1 else None)"

text \<open>The calendar date and the time of day of a \<^verbatim>\<open>datetime\<close>.\<close>

definition date :: "datetime \<Rightarrow> nat list" where
  "date t = [year t, month t, day t]"

definition time_of_day :: "datetime \<Rightarrow> nat list" where
  "time_of_day t = [hour t, minute t, second t, microsecond t]"

definition at_time :: "nat \<Rightarrow> nat \<Rightarrow> nat \<Rightarrow> nat \<Rightarrow> nat \<Rightarrow> datetime" where
  "at_time y m d hh mm =
     \<lparr>year = y, month = m, day = d, hour = hh, minute = mm, second = 0, microsecond = 0\<rparr>"

text \<open>A request with nothing in it, and the body of a call of \<^verbatim>\<open>/verify\<close>.\<close>

definition plain_request :: request where
  "plain_request =
     \<lparr>authorization = None, get_json = JsonNone, key_arg = None, x_forwarded_for = None,
      remote_addr = ''203.0.113.7'', header_user_agent = None\<rparr>"

definition verify_request :: "string \<Rightarrow> string \<Rightarrow> request" where
  "verify_request k h =
     plain_request\<lparr>get_json := JsonDict [(''key'', Some k), (''hwid'', Some h)]\<rparr>"

text \<open>The body of a call of \<^verbatim>\<open>/api/generate\<close>, sent with the admin key \<open>secret\<close>.\<close>

definition issue_request :: "string \<Rightarrow> string \<Rightarrow> string option \<Rightarrow> string \<Rightarrow> request" where
  "issue_request secret expires_at hwid plan =
     plain_request
       \<lparr>authorization := Some (''Bearer '' @ secret),
        get_json := JsonDict [(''expires_at'', Some expires_at), (''hwid'', hwid),
                              (''plan'', Some plan)]\<rparr>"

text \<open>A world in which no statement raises, at a given time.\<close>

definition calm :: "datetime \<Rightarrow> env" where
  "calm t =
     \<lparr>now = t, token_bytes = replicate 16 0, get_country = (\<lambda>ip. ''Unknown''),
      current_timestamp = 0, raises = (\<lambda>q. False), bare_row = last\<rparr>"

text \<open>The same world, except that the insert into \<^verbatim>\<open>usage_logs\<close> raises.\<close>

definition log_down :: "datetime \<Rightarrow> env" where
  "log_down t = (calm t)\<lparr>raises := (\<lambda>q. q = InsertUsage)\<rparr>"

text \<open>The state after start-up, and a state that holds one license.\<close>

definition fresh :: state where
  "fresh = \<lparr>db = \<lparr>licenses = Map.empty, usage_logs = []\<rparr>, stats = init_stats\<rparr>"

definition holding :: "string \<Rightarrow> string option \<Rightarrow> string \<Rightarrow> state" where
  "holding k h expires_at =
     fresh\<lparr>db := \<lparr>licenses = [k \<mapsto> \<lparr>lic_hwid = h, lic_expires_at = expires_at,
                                       lic_plan = Some ''basic''\<rparr>],
                   usage_logs = []\<rparr>\<rparr>"

section \<open>Properties\<close>

subsection \<open>Helper facts\<close>

lemma split_on_not_Nil: "split_on sep s \<noteq> []"
  by (induction s) (auto split: list.splits)

lemma split_on_no_sep: "sep \<notin> set s \<Longrightarrow> split_on sep s = [s]"
  by (induction s) auto

text \<open>After the test \<^verbatim>\<open>startswith('Bearer ')\<close> the split has a second piece: the
  \<^verbatim>\<open>IndexError\<close> of the decorator cannot happen.\<close>

lemma index_split_bearer:
  assumes "startswith h ''Bearer ''"
  shows "\<exists>t. index (split_on (CHR '' '') h) 1 = Some t"
proof -
  from assms obtain r where h: "h = ''Bearer '' @ r"
    unfolding startswith_def by (metis append_take_drop_id)
  obtain p ps where "split_on (CHR '' '') r = p # ps"
    using split_on_not_Nil by (cases "split_on (CHR '' '') r") auto
  then show ?thesis unfolding h by simp
qed

text \<open>For a header \<^verbatim>\<open>Bearer t\<close> whose token has no space, the token is all that
  follows the prefix.\<close>

lemma bearer_token_plain:
  "CHR '' '' \<notin> set t \<Longrightarrow> index (split_on (CHR '' '') (''Bearer '' @ t)) 1 = Some t"
  by (simp add: split_on_no_sep)

text \<open>A call of \<^verbatim>\<open>/verify\<close> whose body names a key and a hardware id, and whose
  \<^verbatim>\<open>SELECT\<close> does not raise, goes on with the row of that key.\<close>

lemma verify_license_found:
  assumes "get_json req = JsonDict data"
    and "map_of data ''key'' = Some (Some k)"
    and "map_of data ''hwid'' = Some h"
    and "\<not> raises e SelectLicense"
  shows "verify_license req e st = bind_and_log (Some k) h (licenses (db st) k) req e st"
  using assms by (simp add: verify_license_def lookup_def get_license_def)

lemma get_json_verify_request:
  "get_json (verify_request k h) = JsonDict [(''key'', Some k), (''hwid'', Some h)]"
  by (simp add: verify_request_def plain_request_def)

lemma map_of_verify_body:
  "map_of [(''key'', Some k), (''hwid'', Some h)] ''key'' = Some (Some k)"
  "map_of [(''key'', Some k), (''hwid'', Some h)] ''hwid'' = Some (Some h)"
  by simp_all

text \<open>A date that \<^verbatim>\<open>strptime\<close> returns is a midnight, and the clock is later than a
  midnight when its date is later, or when its date is the same and its time of day is
  not 00:00:00.\<close>

lemma strptime_midnight: "strptime s = Some d \<Longrightarrow> time_of_day d = [0, 0, 0, 0]"
  by (auto simp: strptime_def make_date_def time_of_day_def
      split: list.splits if_splits option.splits prod.splits)

lemma datetime_gt_midnight:
  assumes "time_of_day d = [0, 0, 0, 0]"
  shows "datetime_gt t d \<longleftrightarrow>
           tuple_gt (date t) (date d) \<or> (date t = date d \<and> time_of_day t \<noteq> [0, 0, 0, 0])"
  using assms by (auto simp: datetime_gt_def getstate_def date_def time_of_day_def)

text \<open>\<^verbatim>\<open>get_key_info\<close> has no answer "not found": its error answers are 400 and 500.\<close>

lemma get_key_info_codes:
  "fst (get_key_info req e st) = Error msg code \<Longrightarrow> code = 400 \<or> code = 500"
  by (auto simp: get_key_info_def error_response_def split: option.splits if_splits)





lemma lookup_early:
  assumes "lookup req e st = Inl (r, st')"
  shows "st' = st\<lparr>stats := increment_error (stats st)\<rparr>"
  using assms
  by (auto simp: lookup_def error_response_def split: json_body.splits option.splits if_splits)

lemma strptime_2999: "strptime ''2999-01-01'' = Some (at_time 2999 1 1 0 0)"
  by (simp add: strptime_def is_digit_def is_digit19_def digit_val_def make_date_def
      days_in_month_def is_leap_def at_time_def)

lemma strptime_2024_06_15: "strptime ''2024-06-15'' = Some (at_time 2024 6 15 0 0)"
  by (simp add: strptime_def is_digit_def is_digit19_def digit_val_def make_date_def
      days_in_month_def is_leap_def at_time_def)

lemma not_expired_2999_in_2026:
  "\<not> is_expired (at_time 2026 11 4 9 30) ''2999-01-01''"
  by (simp add: is_expired_def strptime_2999 datetime_gt_def getstate_def at_time_def)

text \<open>The key generator: characters, length, and the number of tokens.\<close>

lemma b64_char_in: "b64_char n \<in> set b64_alphabet"
  by (simp add: b64_char_def b64_alphabet_def del: set_simps)

lemma b64_char_not_pad: "b64_char n \<noteq> CHR ''=''"
proof -
  have "CHR ''='' \<notin> set b64_alphabet" by (simp add: b64_alphabet_def)
  with b64_char_in [of n] show ?thesis by metis
qed

lemma upper_char_b64: "c \<in> set b64_alphabet \<Longrightarrow> upper_char c \<in> set upper_alphabet"
  unfolding b64_alphabet_def upper_alphabet_def
  by (auto simp: upper_char_def)

lemma list16:
  assumes "length (tok :: 'a list) = 16"
  obtains a1 a2 a3 a4 a5 a6 a7 a8 a9 a10 a11 a12 a13 a14 a15 a16
  where "tok = [a1, a2, a3, a4, a5, a6, a7, a8, a9, a10, a11, a12, a13, a14, a15, a16]"
  using assms by (auto simp: numeral_eq_Suc length_Suc_conv)

lemma token_urlsafe_16:
  assumes "length tok = 16"
  shows "length (token_urlsafe tok) = 22 \<and> set (token_urlsafe tok) \<subseteq> set b64_alphabet"
proof -
  from assms obtain a1 a2 a3 a4 a5 a6 a7 a8 a9 a10 a11 a12 a13 a14 a15 a16
    where "tok = [a1, a2, a3, a4, a5, a6, a7, a8, a9, a10, a11, a12, a13, a14, a15, a16]"
    by (rule list16)
  then show ?thesis
    by (simp add: token_urlsafe_def rstrip_def b64_char_not_pad b64_char_in)
qed

lemma card_tokens: "card {tok :: byte list. length tok = 16} = 2 ^ 128"
proof -
  have "card {tok :: byte list. set tok \<subseteq> UNIV \<and> length tok = 16}
          = card (UNIV :: byte set) ^ 16"
    by (rule card_lists_length_eq) simp
  then show ?thesis by (simp add: card_word)
qed

text \<open>The bytes are recovered from their six-bit values, so different bytes have
  different six-bit values.\<close>

lemma byte1: "(of_nat (unat a div 4 * 4 + (unat a mod 4 * 16 + x) div 16) :: byte) = a"
  if "x < 16" for a :: byte
proof -
  from that have "(unat a mod 4 * 16 + x) div 16 = unat a mod 4" by simp
  then show ?thesis by simp
qed

lemma byte2:
  "(of_nat ((unat a mod 4 * 16 + unat b div 16) mod 16 * 16 + (unat b mod 16 * 4 + y) div 4) :: byte) = b"
  if "y < 4" for a b :: byte
proof -
  have "unat b div 16 < 16" using unsigned_less [of b, where 'a = nat] by simp
  then have "(unat a mod 4 * 16 + unat b div 16) mod 16 = unat b div 16" by simp
  moreover from that have "(unat b mod 16 * 4 + y) div 4 = unat b mod 16" by simp
  ultimately show ?thesis by simp
qed

lemma byte3:
  "(of_nat ((unat b mod 16 * 4 + unat c div 64) mod 4 * 64 + unat c mod 64) :: byte) = c"
  for b c :: byte
proof -
  have "unat c div 64 < 4" using unsigned_less [of c, where 'a = nat] by simp
  then have "(unat b mod 16 * 4 + unat c div 64) mod 4 = unat c div 64" by simp
  then show ?thesis by simp
qed

lemma unsextets_sextets: "unsextets (sextets t) = t"
proof (induction t rule: sextets.induct)
  case 1
  then show ?case by simp
next
  case (2 a)
  show ?case using byte1 [of 0 a] by simp
next
  case (3 a b)
  have "unat b div 16 < 16" using unsigned_less [of b, where 'a = nat] by simp
  from byte1 [OF this, of a] byte2 [of 0 a b] show ?case by simp
next
  case (4 a b c rest)
  have b16: "unat b div 16 < 16" using unsigned_less [of b, where 'a = nat] by simp
  have c64: "unat c div 64 < 4" using unsigned_less [of c, where 'a = nat] by simp
  from byte1 [OF b16, of a] byte2 [OF c64, of a b] byte3 [of b c] 4 show ?case by simp
qed

lemma inj_sextets: "inj sextets"
  by (rule inj_on_inverseI [where g = unsextets]) (rule unsextets_sextets)


text \<open>A key of 16 bytes is the prefix and the characters of their six-bit values; the
  six-bit values of all draws of 16 bytes are exactly the lists described above.\<close>

lemma key_sextets:
  assumes "length tok = 16"
  shows "generate_license_key tok = ''LIC-'' @ map key_char (sextets tok)"
proof -
  from assms obtain a1 a2 a3 a4 a5 a6 a7 a8 a9 a10 a11 a12 a13 a14 a15 a16
    where "tok = [a1, a2, a3, a4, a5, a6, a7, a8, a9, a10, a11, a12, a13, a14, a15, a16]"
    by (rule list16)
  then show ?thesis
    by (simp add: generate_license_key_def upper_def token_urlsafe_def rstrip_def
        b64_char_not_pad key_char_def)
qed

lemma sextet_bounds:
  fixes a b c :: byte
  shows "unat a div 4 < 64"
    and "unat a mod 4 * 16 + unat b div 16 < 64"
    and "unat b mod 16 * 4 + unat c div 64 < 64"
    and "unat c mod 64 < 64"
    and "unat a mod 4 * 16 \<in> {0, 16, 32, 48}"
proof -
  have a: "unat a < 256" and b: "unat b < 256" and c: "unat c < 256"
    using unsigned_less [of a, where 'a = nat] unsigned_less [of b, where 'a = nat]
      unsigned_less [of c, where 'a = nat] by simp_all
  show "unat a div 4 < 64" using a by simp
  have "unat a mod 4 < 4" by simp
  moreover have "unat b div 16 < 16" using b by simp
  ultimately show "unat a mod 4 * 16 + unat b div 16 < 64" by linarith
  have "unat b mod 16 < 16" by simp
  moreover have "unat c div 64 < 4" using c by simp
  ultimately show "unat b mod 16 * 4 + unat c div 64 < 64" by linarith
  show "unat c mod 64 < 64" by simp
  have "unat a mod 4 < 4" by simp
  then have "unat a mod 4 \<in> {0, 1, 2, 3}" by auto
  then show "unat a mod 4 * 16 \<in> {0, 16, 32, 48}" by auto
qed

lemma sextets_in:
  assumes "length tok = 16"
  shows "sextets tok \<in> sextet_lists"
proof -
  from assms obtain a1 a2 a3 a4 a5 a6 a7 a8 a9 a10 a11 a12 a13 a14 a15 a16
    where t: "tok = [a1, a2, a3, a4, a5, a6, a7, a8, a9, a10, a11, a12, a13, a14, a15, a16]"
    by (rule list16)
  have "sextets tok = butlast (sextets tok) @ [unat a16 mod 4 * 16]"
    unfolding t by simp
  moreover have "set (butlast (sextets tok)) \<subseteq> {..<64}"
    unfolding t by (simp add: sextet_bounds)
  moreover have "length (butlast (sextets tok)) = 21"
    unfolding t by simp
  moreover note sextet_bounds(5) [of a16]
  ultimately show ?thesis
    unfolding sextet_lists_def by (intro image_eqI [where x = "(butlast (sextets tok), unat a16 mod 4 * 16)"]) auto
qed

lemma inj_snoc: "inj_on (\<lambda>(xs, y). xs @ [y]) S"
  by (auto simp: inj_on_def)

lemma card_sextet_lists: "card sextet_lists = 64 ^ 21 * 4"
proof -
  have "card {vs :: nat list. set vs \<subseteq> {..<64} \<and> length vs = 21} = card {..<64 :: nat} ^ 21"
    by (rule card_lists_length_eq) simp
  then show ?thesis
    unfolding sextet_lists_def
    by (simp add: card_image [OF inj_snoc] card_cartesian_product)
qed

lemma finite_sextet_lists: "finite sextet_lists"
  unfolding sextet_lists_def
  by (intro finite_imageI finite_cartesian_product finite_lists_length_eq) simp_all

lemma sextets_image: "sextets ` {tok. length tok = 16} = sextet_lists"
proof (rule card_subset_eq [OF finite_sextet_lists])
  show "sextets ` {tok. length tok = 16} \<subseteq> sextet_lists"
    using sextets_in by auto
  have "card (sextets ` {tok. length tok = 16}) = card {tok :: byte list. length tok = 16}"
    by (rule card_image) (rule inj_on_subset [OF inj_sextets subset_UNIV])
  then show "card (sextets ` {tok. length tok = 16}) = card sextet_lists"
    by (simp add: card_tokens card_sextet_lists)
qed

text \<open>The keys of all draws of 16 bytes, and how many they are.\<close>

lemma map_image_lists:
  "map f ` {xs. set xs \<subseteq> S \<and> length xs = n} = {ys. set ys \<subseteq> f ` S \<and> length ys = n}"
proof
  show "map f ` {xs. set xs \<subseteq> S \<and> length xs = n} \<subseteq> {ys. set ys \<subseteq> f ` S \<and> length ys = n}"
    by (auto simp: subset_iff)
  show "{ys. set ys \<subseteq> f ` S \<and> length ys = n} \<subseteq> map f ` {xs. set xs \<subseteq> S \<and> length xs = n}"
  proof
    fix ys assume "ys \<in> {ys. set ys \<subseteq> f ` S \<and> length ys = n}"
    then have ys: "ys \<in> lists (f ` S)" and len: "length ys = n" by auto
    from ys obtain xs where "xs \<in> lists S" and "ys = map f xs"
      unfolding lists_image by auto
    with len show "ys \<in> map f ` {xs. set xs \<subseteq> S \<and> length xs = n}" by auto
  qed
qed

lemma key_char_range: "key_char ` {..<64} = set upper_alphabet"
proof -
  have "{..<64 :: nat} = set [0..<64]" by auto
  then have "key_char ` {..<64} = set (map key_char [0..<64])" by simp
  also have "\<dots> = set upper_alphabet" by code_simp
  finally show ?thesis .
qed

lemma key_char_last: "key_char ` {0, 16, 32, 48} = set ''AQGW''"
proof -
  have "key_char ` {0, 16, 32, 48} = set (map key_char [0, 16, 32, 48])" by simp
  also have "\<dots> = set ''AQGW''" by code_simp
  finally show ?thesis .
qed


lemma snoc_image_map:
  "map f ` (\<lambda>(vs, w). vs @ [w]) ` (A \<times> B) = (\<lambda>(cs, c). cs @ [c]) ` (map f ` A \<times> f ` B)"
proof -
  have "map f ` (\<lambda>(vs, w). vs @ [w]) ` (A \<times> B) = (\<lambda>(vs, w). map f vs @ [f w]) ` (A \<times> B)"
    by (simp add: image_image split_def)
  also have "\<dots> = (\<lambda>(cs, c). cs @ [c]) ` (\<lambda>(vs, w). (map f vs, f w)) ` (A \<times> B)"
    by (simp add: image_image split_def)
  also have "(\<lambda>(vs, w). (map f vs, f w)) ` (A \<times> B) = map f ` A \<times> f ` B"
    by (rule image_paired_Times)
  finally show ?thesis .
qed

lemma map_key_char_image: "map key_char ` sextet_lists = key_bodies"
  unfolding sextet_lists_def snoc_image_map
  by (simp only: map_image_lists key_char_range key_char_last key_bodies_def)

lemma card_key_bodies: "card key_bodies = 38 ^ 21 * 4"
proof -
  have d: "distinct upper_alphabet" by (simp add: upper_alphabet_def)
  have "card (set upper_alphabet) = 38"
    using distinct_card [OF d] by (simp add: upper_alphabet_def)
  moreover have "card {cs. set cs \<subseteq> set upper_alphabet \<and> length cs = 21}
                   = card (set upper_alphabet) ^ 21"
    by (rule card_lists_length_eq) simp
  moreover have "card (set ''AQGW'') = 4" by simp
  ultimately show ?thesis
    unfolding key_bodies_def
    by (simp add: card_image [OF inj_snoc] card_cartesian_product)
qed

lemma keys_image:
  "generate_license_key ` {tok. length tok = 16} = (\<lambda>s. ''LIC-'' @ s) ` key_bodies"
proof -
  have "generate_license_key ` {tok. length tok = 16}
          = (\<lambda>t. ''LIC-'' @ map key_char (sextets t)) ` {tok. length tok = 16}"
    by (rule image_cong) (simp_all add: key_sextets)
  also have "\<dots> = (\<lambda>s. ''LIC-'' @ s) ` map key_char ` sextets ` {tok. length tok = 16}"
    by (simp add: image_image)
  finally show ?thesis by (simp only: sextets_image map_key_char_image)
qed

lemma card_keys: "card (generate_license_key ` {tok. length tok = 16}) = 4 * 38 ^ 21"
proof -
  have "inj_on (\<lambda>s. ''LIC-'' @ s) key_bodies" by (simp add: inj_on_def)
  from card_image [OF this] show ?thesis
    by (simp add: keys_image card_key_bodies)
qed

lemma key_count_bounds: "(2 :: nat) ^ 112 \<le> 4 * 38 ^ 21" "(4 :: nat) * 38 ^ 21 < 2 ^ 128"
  by simp_all

text \<open>How a call of \<^verbatim>\<open>/verify\<close> moves the counters: a success counts as a request
  and as a verify request, every other answer counts as an error and as nothing else.\<close>

lemma log_and_answer_counts:
  assumes "log_and_answer key h lic req e st = (r, st')"
  shows "stats st' = (if is_valid r then increment_request (stats st) ''verify''
                      else increment_error (stats st))"
  using assms
  by (auto simp: log_and_answer_def error_response_def is_valid_def Let_def split: if_splits)

lemma bind_and_log_counts:
  assumes "bind_and_log key h found req e st = (r, st')"
  shows "stats st' = (if is_valid r then increment_request (stats st) ''verify''
                      else increment_error (stats st))"
  using assms
  by (auto simp: bind_and_log_def error_response_def is_valid_def
      split: option.splits if_splits dest!: log_and_answer_counts)

lemma verify_license_counts:
  assumes "verify_license req e st = (r, st')"
  shows "stats st' = (if is_valid r then increment_request (stats st) ''verify''
                      else increment_error (stats st))"
proof (cases "lookup req e st")
  case (Inl early)
  with assms have l: "lookup req e st = Inl (r, st')"
    by (simp add: verify_license_def)
  then have "\<not> is_valid r"
    by (auto simp: lookup_def error_response_def is_valid_def
        split: json_body.splits option.splits if_splits)
  with lookup_early [OF l] show ?thesis by simp
next
  case (Inr found)
  obtain key h lic where "found = (key, h, lic)" by (cases found) auto
  with Inr assms have "bind_and_log key h lic req e st = (r, st')"
    by (simp add: verify_license_def)
  from bind_and_log_counts [OF this] show ?thesis .
qed

lemma serve_counts:
  assumes "serve calls st = (rs, st')"
  shows "request_count (stats st') = request_count (stats st) + int (length (filter is_valid rs))
       \<and> verify_requests (stats st') = verify_requests (stats st) + int (length (filter is_valid rs))
       \<and> error_count (stats st')
           = error_count (stats st) + int (length (filter (\<lambda>r. \<not> is_valid r) rs))"
  using assms
proof (induction calls arbitrary: st rs st')
  case Nil
  then show ?case by simp
next
  case (Cons c calls)
  obtain req e where c: "c = (req, e)" by (cases c)
  obtain r s1 where v: "verify_license req e st = (r, s1)" by (cases "verify_license req e st")
  obtain rs' s2 where sv: "serve calls s1 = (rs', s2)" by (cases "serve calls s1")
  from Cons.prems c v sv have eq: "rs = r # rs'" "st' = s2" by simp_all
  from Cons.IH [OF sv] verify_license_counts [OF v] eq show ?case
    by (simp add: increment_request_def increment_error_def Let_def)
qed

lemma serve_success_rate:
  assumes "serve calls st = (rs, st')" and "stats st = init_stats"
  shows "success_rate (get_stats (stats st'))
           = (of_int (int (length (filter is_valid rs)))
                - of_int (int (length (filter (\<lambda>r. \<not> is_valid r) rs))))
             / of_int (max (int (length (filter is_valid rs))) 1) * 100"
  using serve_counts [OF assms(1)] assms(2)
  by (simp add: get_stats_def init_stats_def)

text \<open>A thread that runs its two steps with nothing in between does what the handler
  does; and two first verifications that run one after the other end as the protocol
  wants, the second with "HWID mismatch".\<close>

lemma run_alone:
  "run_schedule [0, 0] [Arrived req e] st
     = ([Answered (fst (verify_license req e st))], snd (verify_license req e st))"
  by (auto simp: verify_license_def split: sum.splits prod.splits)

lemma sequential_second_is_mismatch:
  "map answer (fst (run_schedule [0, 0, 1, 1]
           [Arrived (verify_request ''LIC-K'' ''device-A'') (calm (at_time 2026 11 4 9 30)),
            Arrived (verify_request ''LIC-K'' ''device-B'') (calm (at_time 2026 11 4 9 30))]
           (holding ''LIC-K'' None ''2999-01-01'')))
     = [Some (Valid ''2999-01-01'' (Some ''basic'')), Some HwidMismatch]"
  by code_simp

text \<open>A request with the right bearer token reaches the wrapped function, counted as
  an admin request; and what \<^verbatim>\<open>/api/generate\<close> stores.\<close>

lemma require_admin_key_accepts:
  assumes "authorization req = Some (''Bearer '' @ secret)" and "CHR '' '' \<notin> set secret"
  shows "require_admin_key secret f req e st
           = f req e (st\<lparr>stats := increment_request (stats st) ''admin''\<rparr>)"
  using assms bearer_token_plain [OF assms(2)]
  by (simp add: require_admin_key_def startswith_def)

lemma is_expired_2999: "is_expired t ''2999-01-01'' = datetime_gt t (at_time 2999 1 1 0 0)"
  by (simp add: is_expired_def strptime_2999)

lemma issue_unbound:
  assumes "CHR '' '' \<notin> set secret"
    and "licenses (db st) (generate_license_key (token_bytes e)) = None"
    and "\<not> raises e InsertLicense"
  shows "api_generate secret (issue_request secret ''2999-01-01'' hw ''pro'') e st
           = (Generated (generate_license_key (token_bytes e)) ''2999-01-01'',
              st\<lparr>stats := increment_request (stats st) ''admin'',
                 db := (db st)\<lparr>licenses := (licenses (db st))
                   (generate_license_key (token_bytes e) \<mapsto>
                      \<lparr>lic_hwid = hw, lic_expires_at = ''2999-01-01'',
                       lic_plan = Some ''pro''\<rparr>)\<rparr>\<rparr>)"
proof -
  have "authorization (issue_request secret ''2999-01-01'' hw ''pro'')
          = Some (''Bearer '' @ secret)"
    by (simp add: issue_request_def plain_request_def)
  from require_admin_key_accepts [OF this assms(1)]
  have "api_generate secret (issue_request secret ''2999-01-01'' hw ''pro'') e st
          = generate_license (issue_request secret ''2999-01-01'' hw ''pro'') e
              (st\<lparr>stats := increment_request (stats st) ''admin''\<rparr>)"
    by (simp add: api_generate_def)
  also have "\<dots> = (Generated (generate_license_key (token_bytes e)) ''2999-01-01'',
              st\<lparr>stats := increment_request (stats st) ''admin'',
                 db := (db st)\<lparr>licenses := (licenses (db st))
                   (generate_license_key (token_bytes e) \<mapsto>
                      \<lparr>lic_hwid = hw, lic_expires_at = ''2999-01-01'',
                       lic_plan = Some ''pro''\<rparr>)\<rparr>\<rparr>)"
    using assms(2,3)
    by (simp add: generate_license_def issue_request_def plain_request_def strptime_2999
        add_license_def Let_def)
  finally show ?thesis .
qed


subsection \<open>Admin authentication\<close>

text \<open>
  Claim C9. A request to an admin endpoint whose bearer credential is absent or differs
  from the admin secret is answered with status 401; the error counter goes up by one and
  nothing else in the state changes: the admin-request counter keeps its value, and the
  wrapped function \<open>f\<close>, whatever it is, has no part in the result.
\<close>

theorem require_admin_key_rejects:
  assumes "bearer_credential req \<noteq> Some admin_key"
  shows "fst (require_admin_key admin_key f req e st)
           \<in> {Error ''Missing or invalid authorization header'' 401,
              Error ''Invalid admin key'' 401}
         \<and> snd (require_admin_key admin_key f req e st)
             = st\<lparr>stats := (stats st)\<lparr>error_count := error_count (stats st) + 1\<rparr>\<rparr>"
proof (cases "authorization req")
  case None
  then show ?thesis
    by (simp add: require_admin_key_def startswith_def error_response_def increment_error_def)
next
  case (Some h)
  show ?thesis
  proof (cases "startswith h ''Bearer ''")
    case False
    with Some show ?thesis
      by (simp add: require_admin_key_def error_response_def increment_error_def)
  next
    case True
    then obtain t where t: "index (split_on (CHR '' '') h) 1 = Some t"
      using index_split_bearer by blast
    with assms Some True have "t \<noteq> admin_key"
      by (simp add: bearer_credential_def)
    with Some True t show ?thesis
      by (simp add: require_admin_key_def error_response_def increment_error_def)
  qed
qed

theorem require_admin_key_rejects_witness:
  "bearer_credential (plain_request\<lparr>authorization := Some ''Bearer guess''\<rparr>) \<noteq> Some ''s3cret''
   \<and> fst (require_admin_key ''s3cret'' get_key_info
             (plain_request\<lparr>authorization := Some ''Bearer guess''\<rparr>)
             (calm (at_time 2026 11 4 9 30)) fresh)
       \<in> {Error ''Missing or invalid authorization header'' 401,
          Error ''Invalid admin key'' 401}
   \<and> snd (require_admin_key ''s3cret'' get_key_info
             (plain_request\<lparr>authorization := Some ''Bearer guess''\<rparr>)
             (calm (at_time 2026 11 4 9 30)) fresh)
       = fresh\<lparr>stats := (stats fresh)\<lparr>error_count := error_count (stats fresh) + 1\<rparr>\<rparr>"
proof -
  have h: "bearer_credential (plain_request\<lparr>authorization := Some ''Bearer guess''\<rparr>)
             \<noteq> Some ''s3cret''"
    by (simp add: bearer_credential_def plain_request_def startswith_def)
  from require_admin_key_rejects [OF h] h show ?thesis by blast
qed

subsection \<open>Expiry\<close>

text \<open>
  Claim C4. When the stored \<^verbatim>\<open>expires_at\<close> of a license is no date in the form
  YYYY-MM-DD, every call of \<^verbatim>\<open>/verify\<close> that finds the license is answered
  "License expired" (410), whatever the clock, the hardware id and the binding are; the
  call counts as an error and changes nothing else.
\<close>

theorem malformed_date_fails_closed:
  assumes "get_json req = JsonDict data"
    and "map_of data ''key'' = Some (Some k)"
    and "map_of data ''hwid'' = Some h"
    and "\<not> raises e SelectLicense"
    and "licenses (db st) k = Some lic"
    and "strptime (lic_expires_at lic) = None"
  shows "verify_license req e st = (Expired, st\<lparr>stats := increment_error (stats st)\<rparr>)"
proof -
  have "is_expired (now e) (lic_expires_at lic)"
    using assms(6) by (simp add: is_expired_def)
  then have "bind_and_log (Some k) h (Some lic) req e st
               = (Expired, st\<lparr>stats := increment_error (stats st)\<rparr>)"
    by (simp add: bind_and_log_def error_response_def)
  with verify_license_found [OF assms(1-4)] assms(5) show ?thesis by simp
qed

theorem malformed_date_fails_closed_witness:
  "get_json (verify_request ''LIC-K'' ''device-A'')
     = JsonDict [(''key'', Some ''LIC-K''), (''hwid'', Some ''device-A'')]
   \<and> \<not> raises (calm (at_time 2020 1 1 0 0)) SelectLicense
   \<and> licenses (db (holding ''LIC-K'' (Some ''device-A'') ''2024-02-30'')) ''LIC-K''
        = Some \<lparr>lic_hwid = Some ''device-A'', lic_expires_at = ''2024-02-30'',
                lic_plan = Some ''basic''\<rparr>
   \<and> strptime ''2024-02-30'' = None
   \<and> fst (verify_license (verify_request ''LIC-K'' ''device-A'') (calm (at_time 2020 1 1 0 0))
        (holding ''LIC-K'' (Some ''device-A'') ''2024-02-30'')) = Expired"
proof -
  let ?lic = "\<lparr>lic_hwid = Some ''device-A'', lic_expires_at = ''2024-02-30'',
               lic_plan = Some ''basic''\<rparr>"
  note a = get_json_verify_request [of "''LIC-K''" "''device-A''"]
  note b = map_of_verify_body [of "''LIC-K''" "''device-A''"]
  have d: "\<not> raises (calm (at_time 2020 1 1 0 0)) SelectLicense"
    by (simp add: calm_def)
  have f: "licenses (db (holding ''LIC-K'' (Some ''device-A'') ''2024-02-30'')) ''LIC-K''
             = Some ?lic"
    by (simp add: holding_def fresh_def)
  have g: "strptime (lic_expires_at ?lic) = None"
    by (simp add: strptime_def is_digit_def is_digit19_def digit_val_def make_date_def
        days_in_month_def is_leap_def)
  from malformed_date_fails_closed [OF a b d f g] a d f g show ?thesis by simp
qed

text \<open>
  Claim C3, as the code has it. For a license that exists and whose stored date parses,
  \<^verbatim>\<open>/verify\<close> answers "License expired" exactly when the clock is later than
  00:00:00 of the stored date: when the current date is later than the stored date, or
  when it is the stored date and the time of day is past midnight. The time of day is
  not ignored: on the expiry date itself the license is expired from the first
  microsecond on. The answer does not depend on the hardware id or on the binding.
\<close>

theorem verify_expired_iff:
  assumes "get_json req = JsonDict data"
    and "map_of data ''key'' = Some (Some k)"
    and "map_of data ''hwid'' = Some h"
    and "\<not> raises e SelectLicense"
    and "licenses (db st) k = Some lic"
    and "strptime (lic_expires_at lic) = Some d"
  shows "fst (verify_license req e st) = Expired \<longleftrightarrow>
           tuple_gt (date (now e)) (date d)
           \<or> (date (now e) = date d \<and> time_of_day (now e) \<noteq> [0, 0, 0, 0])"
proof -
  have exp: "is_expired (now e) (lic_expires_at lic) \<longleftrightarrow> datetime_gt (now e) d"
    using assms(6) by (simp add: is_expired_def)
  have "fst (bind_and_log (Some k) h (Some lic) req e st) = Expired
          \<longleftrightarrow> is_expired (now e) (lic_expires_at lic)"
    by (simp add: bind_and_log_def log_and_answer_def error_response_def Let_def
        split: option.splits)
  with verify_license_found [OF assms(1-4)] assms(5) exp
  have "fst (verify_license req e st) = Expired \<longleftrightarrow> datetime_gt (now e) d"
    by simp
  with datetime_gt_midnight [OF strptime_midnight [OF assms(6)]] show ?thesis
    by simp
qed

theorem verify_expired_iff_witness:
  "get_json (verify_request ''LIC-K'' ''device-A'')
     = JsonDict [(''key'', Some ''LIC-K''), (''hwid'', Some ''device-A'')]
   \<and> \<not> raises (calm (at_time 2024 6 15 0 1)) SelectLicense
   \<and> licenses (db (holding ''LIC-K'' (Some ''device-A'') ''2024-06-15'')) ''LIC-K''
        = Some \<lparr>lic_hwid = Some ''device-A'', lic_expires_at = ''2024-06-15'',
                lic_plan = Some ''basic''\<rparr>
   \<and> strptime ''2024-06-15'' = Some (at_time 2024 6 15 0 0)
   \<and> (fst (verify_license (verify_request ''LIC-K'' ''device-A'') (calm (at_time 2024 6 15 0 1))
             (holding ''LIC-K'' (Some ''device-A'') ''2024-06-15'')) = Expired)
       = (tuple_gt (date (now (calm (at_time 2024 6 15 0 1)))) (date (at_time 2024 6 15 0 0))
          \<or> (date (now (calm (at_time 2024 6 15 0 1))) = date (at_time 2024 6 15 0 0)
              \<and> time_of_day (now (calm (at_time 2024 6 15 0 1))) \<noteq> [0, 0, 0, 0]))"
proof -
  let ?lic = "\<lparr>lic_hwid = Some ''device-A'', lic_expires_at = ''2024-06-15'',
               lic_plan = Some ''basic''\<rparr>"
  note a = get_json_verify_request [of "''LIC-K''" "''device-A''"]
  note b = map_of_verify_body [of "''LIC-K''" "''device-A''"]
  have c: "\<not> raises (calm (at_time 2024 6 15 0 1)) SelectLicense"
    by (simp add: calm_def)
  have f: "licenses (db (holding ''LIC-K'' (Some ''device-A'') ''2024-06-15'')) ''LIC-K''
             = Some ?lic"
    by (simp add: holding_def fresh_def)
  have g: "strptime (lic_expires_at ?lic) = Some (at_time 2024 6 15 0 0)"
    by (simp add: strptime_2024_06_15)
  from verify_expired_iff [OF a b c f g] a c f strptime_2024_06_15 show ?thesis
    by blast
qed

text \<open>At noon of the expiry date the current date is not later than the stored date, and
  the answer is "License expired" all the same, to the device the license is bound to.\<close>

theorem expiry_day_counterexample:
  "fst (verify_license (verify_request ''LIC-K'' ''device-A'') (calm (at_time 2024 6 15 12 0))
         (holding ''LIC-K'' (Some ''device-A'') ''2024-06-15'')) = Expired
   \<and> date (now (calm (at_time 2024 6 15 12 0))) = [2024, 6, 15]
   \<and> \<not> tuple_gt (date (now (calm (at_time 2024 6 15 12 0)))) [2024, 6, 15]"
  by code_simp

subsection \<open>Failures of the store during \<^verbatim>\<open>/verify\<close>\<close>

text \<open>
  Claim C5, as the code has it. When a call of \<^verbatim>\<open>/verify\<close> has found the license, the
  license is not expired and the hardware id is accepted (the license is unbound, or
  bound to this id), and the insert into \<^verbatim>\<open>usage_logs\<close> raises, then the exception
  reaches the handler's \<^verbatim>\<open>except\<close>: the answer is "Internal server error" (500), the
  error counter goes up by one, the verify counter keeps its value and no usage row is
  stored. The failure is not swallowed.
\<close>

theorem log_failure_is_internal:
  assumes "get_json req = JsonDict data"
    and "map_of data ''key'' = Some (Some k)"
    and "map_of data ''hwid'' = Some h"
    and "\<not> raises e SelectLicense"
    and "licenses (db st) k = Some lic"
    and "\<not> is_expired (now e) (lic_expires_at lic)"
    and "lic_hwid lic = None \<or> lic_hwid lic = h"
    and "\<not> raises e UpdateHwid"
    and "raises e InsertUsage"
  shows "fst (verify_license req e st) = Internal
         \<and> error_count (stats (snd (verify_license req e st))) = error_count (stats st) + 1
         \<and> verify_requests (stats (snd (verify_license req e st))) = verify_requests (stats st)
         \<and> usage_logs (db (snd (verify_license req e st))) = usage_logs (db st)"
proof -
  have "verify_license req e st = bind_and_log (Some k) h (Some lic) req e st"
    using verify_license_found [OF assms(1-4)] assms(5) by simp
  moreover have "bind_and_log (Some k) h (Some lic) req e st
      = error_response ''Internal server error'' 500
          (if lic_hwid lic = None then st\<lparr>db := update_hwid (db st) (Some k) h\<rparr> else st)"
    using assms(6-9) by (auto simp: bind_and_log_def log_and_answer_def)
  ultimately show ?thesis
    using assms(5)
    by (simp add: error_response_def increment_error_def update_hwid_def)
qed

theorem log_failure_is_internal_witness:
  "get_json (verify_request ''LIC-K'' ''device-A'')
     = JsonDict [(''key'', Some ''LIC-K''), (''hwid'', Some ''device-A'')]
   \<and> \<not> raises (log_down (at_time 2026 11 4 9 30)) SelectLicense
   \<and> licenses (db (holding ''LIC-K'' (Some ''device-A'') ''2999-01-01'')) ''LIC-K''
        = Some \<lparr>lic_hwid = Some ''device-A'', lic_expires_at = ''2999-01-01'',
                lic_plan = Some ''basic''\<rparr>
   \<and> \<not> is_expired (now (log_down (at_time 2026 11 4 9 30))) ''2999-01-01''
   \<and> \<not> raises (log_down (at_time 2026 11 4 9 30)) UpdateHwid
   \<and> raises (log_down (at_time 2026 11 4 9 30)) InsertUsage
   \<and> fst (verify_license (verify_request ''LIC-K'' ''device-A'')
            (log_down (at_time 2026 11 4 9 30))
            (holding ''LIC-K'' (Some ''device-A'') ''2999-01-01'')) = Internal
   \<and> error_count (stats (snd (verify_license (verify_request ''LIC-K'' ''device-A'')
            (log_down (at_time 2026 11 4 9 30))
            (holding ''LIC-K'' (Some ''device-A'') ''2999-01-01''))))
       = error_count (stats (holding ''LIC-K'' (Some ''device-A'') ''2999-01-01'')) + 1"
proof -
  let ?lic = "\<lparr>lic_hwid = Some ''device-A'', lic_expires_at = ''2999-01-01'',
               lic_plan = Some ''basic''\<rparr>"
  let ?e = "log_down (at_time 2026 11 4 9 30)"
  note a = get_json_verify_request [of "''LIC-K''" "''device-A''"]
  note b = map_of_verify_body [of "''LIC-K''" "''device-A''"]
  have c: "\<not> raises ?e SelectLicense" by (simp add: log_down_def calm_def)
  have f: "licenses (db (holding ''LIC-K'' (Some ''device-A'') ''2999-01-01'')) ''LIC-K''
             = Some ?lic"
    by (simp add: holding_def fresh_def)
  have n: "now ?e = at_time 2026 11 4 9 30" by (simp add: log_down_def calm_def)
  have g: "\<not> is_expired (now ?e) (lic_expires_at ?lic)"
    by (simp add: n not_expired_2999_in_2026)
  have h: "lic_hwid ?lic = None \<or> lic_hwid ?lic = Some ''device-A''" by simp
  have i: "\<not> raises ?e UpdateHwid" by (simp add: log_down_def calm_def)
  have j: "raises ?e InsertUsage" by (simp add: log_down_def calm_def)
  from log_failure_is_internal [OF a b c f g h i j] a c f g i j show ?thesis
    by simp
qed

text \<open>The same call is valid when the insert succeeds, and is answered 500 when it
  raises.\<close>

theorem log_failure_counterexample:
  "fst (verify_license (verify_request ''LIC-K'' ''device-A'') (calm (at_time 2026 11 4 9 30))
         (holding ''LIC-K'' (Some ''device-A'') ''2999-01-01''))
     = Valid ''2999-01-01'' (Some ''basic'')
   \<and> fst (verify_license (verify_request ''LIC-K'' ''device-A'')
           (log_down (at_time 2026 11 4 9 30))
           (holding ''LIC-K'' (Some ''device-A'') ''2999-01-01''))
     = Internal"
  by code_simp




subsection \<open>Key information\<close>

text \<open>
  Claim C10. For a key that has no row in \<^verbatim>\<open>usage_logs\<close>, \<^verbatim>\<open>get_key_info\<close> answers
  "no key info" and leaves the state as it is, whatever the table \<^verbatim>\<open>licenses\<close> holds:
  a key that was never issued and a key that was issued and never verified get the same
  answer, and none of them gets "not found". (The key is the query parameter, which the
  handler takes as missing when it is empty; the statement that reads \<^verbatim>\<open>usage_logs\<close>
  does not raise.)
\<close>

theorem keyinfo_no_data:
  assumes "key_arg req = Some k" and "k \<noteq> []"
    and "\<not> raises e SelectUsage"
    and "\<forall>ev \<in> set (usage_logs (db st)). log_license_key ev \<noteq> Some k"
  shows "get_key_info req e (st\<lparr>db := (db st)\<lparr>licenses := table\<rparr>\<rparr>)
           = (NoKeyInfo, st\<lparr>db := (db st)\<lparr>licenses := table\<rparr>\<rparr>)"
proof -
  have "filter (\<lambda>r. log_license_key r = Some k) (usage_logs (db st)) = []"
    using assms(4) by (simp add: filter_empty_conv)
  then have "get_usage_info (bare_row e) ((db st)\<lparr>licenses := table\<rparr>) k = None"
    by (simp add: get_usage_info_def)
  with assms(1-3) show ?thesis by (simp add: get_key_info_def)
qed

theorem keyinfo_no_data_witness:
  "key_arg (plain_request\<lparr>key_arg := Some ''LIC-K''\<rparr>) = Some ''LIC-K''
   \<and> ''LIC-K'' \<noteq> []
   \<and> \<not> raises (calm (at_time 2026 11 4 9 30)) SelectUsage
   \<and> usage_logs (db (holding ''LIC-K'' None ''2999-01-01'')) = []
   \<and> licenses (db (holding ''LIC-K'' None ''2999-01-01'')) ''LIC-K'' \<noteq> None
   \<and> fst (get_key_info (plain_request\<lparr>key_arg := Some ''LIC-K''\<rparr>)
            (calm (at_time 2026 11 4 9 30))
            ((holding ''LIC-K'' None ''2999-01-01'')
               \<lparr>db := (db (holding ''LIC-K'' None ''2999-01-01''))
                  \<lparr>licenses := licenses (db (holding ''LIC-K'' None ''2999-01-01''))\<rparr>\<rparr>))
       = NoKeyInfo
   \<and> fst (get_key_info (plain_request\<lparr>key_arg := Some ''LIC-K''\<rparr>)
            (calm (at_time 2026 11 4 9 30))
            ((holding ''LIC-K'' None ''2999-01-01'')
               \<lparr>db := (db (holding ''LIC-K'' None ''2999-01-01''))
                  \<lparr>licenses := Map.empty\<rparr>\<rparr>))
       = NoKeyInfo"
proof -
  let ?req = "plain_request\<lparr>key_arg := Some ''LIC-K''\<rparr>"
  let ?st = "holding ''LIC-K'' None ''2999-01-01''"
  have a: "key_arg ?req = Some ''LIC-K''" by simp
  have b: "''LIC-K'' \<noteq> []" by simp
  have c: "\<not> raises (calm (at_time 2026 11 4 9 30)) SelectUsage"
    by (simp add: calm_def)
  have logs: "usage_logs (db ?st) = []"
    by (simp add: holding_def fresh_def)
  then have d: "\<forall>ev \<in> set (usage_logs (db ?st)). log_license_key ev \<noteq> Some ''LIC-K''"
    by simp
  have present: "licenses (db ?st) ''LIC-K'' \<noteq> None"
    by (simp add: holding_def fresh_def)
  from keyinfo_no_data [OF a b c d, of "licenses (db ?st)"]
    keyinfo_no_data [OF a b c d, of Map.empty] a b c logs present
  show ?thesis by simp
qed

subsection \<open>License keys\<close>

text \<open>
  Claim C8, as the code has it. A key made from the 16 bytes (128 bits) that the secure
  random source returns starts with \<open>LIC-\<close>, has 26 characters, and after the prefix
  uses only the URL-safe characters A to Z, 0 to 9, \<open>-\<close> and \<open>_\<close>. Because the token
  is put in upper case, different draws give the same key: the keys that the generator
  can return are \<open>4 * 38 ^ 21\<close>, which is at least \<open>2 ^ 112\<close> and less than
  \<open>2 ^ 128\<close>.
\<close>

theorem license_key_shape:
  assumes "length tok = 16"
  shows "take 4 (generate_license_key tok) = ''LIC-''
         \<and> length (generate_license_key tok) = 26
         \<and> set (drop 4 (generate_license_key tok)) \<subseteq> set upper_alphabet
         \<and> card (generate_license_key ` {t. length t = 16}) = 4 * 38 ^ 21
         \<and> 2 ^ 112 \<le> card (generate_license_key ` {t. length t = 16})
         \<and> card (generate_license_key ` {t. length t = 16}) < 2 ^ 128"
proof -
  from token_urlsafe_16 [OF assms]
  have len: "length (token_urlsafe tok) = 22"
    and sub: "set (token_urlsafe tok) \<subseteq> set b64_alphabet" by simp_all
  have shape: "take 4 (generate_license_key tok) = ''LIC-''"
    "length (generate_license_key tok) = 26"
    by (simp_all add: generate_license_key_def upper_def len)
  have "set (drop 4 (generate_license_key tok)) = upper_char ` set (token_urlsafe tok)"
    by (simp add: generate_license_key_def upper_def)
  also have "\<dots> \<subseteq> set upper_alphabet"
    using sub by (intro image_subsetI) (rule upper_char_b64, erule subsetD)
  finally have alpha: "set (drop 4 (generate_license_key tok)) \<subseteq> set upper_alphabet" .
  from shape alpha card_keys key_count_bounds show ?thesis by simp
qed

theorem license_key_shape_witness:
  "length [14, 185, 161, 205, 238, 132, 61, 203, 244, 124, 223, 252, 212, 24, 254,
           (156 :: byte)] = 16
   \<and> generate_license_key [14, 185, 161, 205, 238, 132, 61, 203, 244, 124, 223, 252, 212,
        24, 254, 156] = ''LIC-DRMHZE6EPCV0FN_81BJ-NA''
   \<and> take 4 (generate_license_key [14, 185, 161, 205, 238, 132, 61, 203, 244, 124, 223,
        252, 212, 24, 254, 156]) = ''LIC-''
   \<and> length (generate_license_key [14, 185, 161, 205, 238, 132, 61, 203, 244, 124, 223,
        252, 212, 24, 254, 156]) = 26
   \<and> card (generate_license_key ` {t. length t = 16}) = 4 * 38 ^ 21
   \<and> card (generate_license_key ` {t. length t = 16}) < 2 ^ 128"
proof -
  let ?tok = "[14, 185, 161, 205, 238, 132, 61, 203, 244, 124, 223, 252, 212, 24, 254,
               (156 :: byte)]"
  have a: "length ?tok = 16" by simp
  have b: "generate_license_key ?tok = ''LIC-DRMHZE6EPCV0FN_81BJ-NA''" by code_simp
  from license_key_shape [OF a] a b show ?thesis by simp
qed

text \<open>Two draws of 16 bytes that differ and give one key.\<close>

theorem key_collision_counterexample:
  "generate_license_key [0, 0, 0, 0, 0, 0, 0, 0, 0, 0, 0, 0, 0, 0, 0, 0]
     = generate_license_key [104, 0, 0, 0, 0, 0, 0, 0, 0, 0, 0, 0, 0, 0, 0, 0]
   \<and> [0, 0, 0, 0, 0, 0, 0, 0, 0, 0, 0, 0, 0, 0, 0, (0 :: byte)]
       \<noteq> [104, 0, 0, 0, 0, 0, 0, 0, 0, 0, 0, 0, 0, 0, 0, 0]
   \<and> length [0, 0, 0, 0, 0, 0, 0, 0, 0, 0, 0, 0, 0, 0, 0, (0 :: byte)] = 16
   \<and> length [104, 0, 0, 0, 0, 0, 0, 0, 0, 0, 0, 0, 0, 0, 0, (0 :: byte)] = 16"
  by code_simp

subsection \<open>Issue, first verification, second device\<close>

text \<open>
  Claim C2, as the code has it. A license issued with \<^verbatim>\<open>expires_at\<close> 2999-01-01,
  \<^verbatim>\<open>hwid\<close> null and plan "pro" gets a key \<open>K\<close>; the first \<^verbatim>\<open>/verify\<close> of \<open>K\<close> from
  "device-A" is answered valid with that date and plan, and binds the license to
  "device-A"; a later \<^verbatim>\<open>/verify\<close> from "device-B" is answered "HWID mismatch" and
  leaves the binding. (The admin secret has no space, the key is new, no statement
  raises, and the clock has not passed the first of January 2999.) The license is
  unbound only when \<^verbatim>\<open>hwid\<close> is null: any string, the empty one too, is stored as the
  device the license is bound to.
\<close>

theorem issue_then_verify:
  assumes "CHR '' '' \<notin> set secret"
    and "licenses (db st) (generate_license_key (token_bytes e1)) = None"
    and "\<not> raises e1 InsertLicense"
    and "\<not> raises e2 SelectLicense" and "\<not> raises e2 UpdateHwid"
    and "\<not> raises e2 InsertUsage"
    and "\<not> raises e3 SelectLicense"
    and "\<not> datetime_gt (now e2) (at_time 2999 1 1 0 0)"
    and "\<not> datetime_gt (now e3) (at_time 2999 1 1 0 0)"
  shows "let K = generate_license_key (token_bytes e1);
             issued = api_generate secret
                        (issue_request secret ''2999-01-01'' None ''pro'') e1 st;
             first = verify_license (verify_request K ''device-A'') e2 (snd issued);
             again = verify_license (verify_request K ''device-B'') e3 (snd first)
         in fst issued = Generated K ''2999-01-01''
            \<and> fst first = Valid ''2999-01-01'' (Some ''pro'')
            \<and> map_option lic_hwid (licenses (db (snd first)) K) = Some (Some ''device-A'')
            \<and> fst again = HwidMismatch
            \<and> map_option lic_hwid (licenses (db (snd again)) K) = Some (Some ''device-A'')"
proof -
  define K where "K = generate_license_key (token_bytes e1)"
  define issued where
    "issued = api_generate secret (issue_request secret ''2999-01-01'' None ''pro'') e1 st"
  define first where "first = verify_license (verify_request K ''device-A'') e2 (snd issued)"
  define again where "again = verify_license (verify_request K ''device-B'') e3 (snd first)"
  have i1: "fst issued = Generated K ''2999-01-01''"
    and i2: "licenses (db (snd issued)) K
               = Some \<lparr>lic_hwid = None, lic_expires_at = ''2999-01-01'', lic_plan = Some ''pro''\<rparr>"
    unfolding issued_def K_def issue_unbound [OF assms(1-3)] by simp_all
  have "first = bind_and_log (Some K) (Some ''device-A'') (licenses (db (snd issued)) K)
                  (verify_request K ''device-A'') e2 (snd issued)"
    unfolding first_def
    by (rule verify_license_found [OF get_json_verify_request map_of_verify_body assms(4)])
  with i2 assms(5,6,8)
  have f1: "fst first = Valid ''2999-01-01'' (Some ''pro'')"
    and f2: "licenses (db (snd first)) K
               = Some \<lparr>lic_hwid = Some ''device-A'', lic_expires_at = ''2999-01-01'',
                       lic_plan = Some ''pro''\<rparr>"
    by (simp_all add: bind_and_log_def log_and_answer_def is_expired_2999 update_hwid_def
        log_usage_def Let_def)
  have "again = bind_and_log (Some K) (Some ''device-B'') (licenses (db (snd first)) K)
                  (verify_request K ''device-B'') e3 (snd first)"
    unfolding again_def
    by (rule verify_license_found [OF get_json_verify_request map_of_verify_body assms(7)])
  with f2 assms(9)
  have a1: "fst again = HwidMismatch"
    and a2: "licenses (db (snd again)) K = licenses (db (snd first)) K"
    by (simp_all add: bind_and_log_def is_expired_2999 error_response_def)
  from i1 f1 f2 a1 a2 show ?thesis
    unfolding Let_def K_def [symmetric] issued_def [symmetric] first_def [symmetric]
      again_def [symmetric]
    by simp
qed

theorem issue_then_verify_witness:
  "CHR '' '' \<notin> set ''s3cret''
   \<and> generate_license_key (token_bytes (calm (at_time 2026 11 4 9 30)))
       = ''LIC-AAAAAAAAAAAAAAAAAAAAAA''
   \<and> licenses (db fresh) ''LIC-AAAAAAAAAAAAAAAAAAAAAA'' = None
   \<and> \<not> raises (calm (at_time 2026 11 4 9 30)) InsertLicense
   \<and> \<not> raises (calm (at_time 2026 11 4 9 30)) SelectLicense
   \<and> \<not> raises (calm (at_time 2026 11 4 9 30)) UpdateHwid
   \<and> \<not> raises (calm (at_time 2026 11 4 9 30)) InsertUsage
   \<and> \<not> datetime_gt (now (calm (at_time 2026 11 4 9 30))) (at_time 2999 1 1 0 0)
   \<and> fst (api_generate ''s3cret'' (issue_request ''s3cret'' ''2999-01-01'' None ''pro'')
            (calm (at_time 2026 11 4 9 30)) fresh)
       = Generated ''LIC-AAAAAAAAAAAAAAAAAAAAAA'' ''2999-01-01''
   \<and> fst (verify_license (verify_request ''LIC-AAAAAAAAAAAAAAAAAAAAAA'' ''device-A'')
            (calm (at_time 2026 11 4 9 30))
            (snd (api_generate ''s3cret''
                    (issue_request ''s3cret'' ''2999-01-01'' None ''pro'')
                    (calm (at_time 2026 11 4 9 30)) fresh)))
       = Valid ''2999-01-01'' (Some ''pro'')
   \<and> fst (verify_license (verify_request ''LIC-AAAAAAAAAAAAAAAAAAAAAA'' ''device-B'')
            (calm (at_time 2026 11 4 9 30))
            (snd (verify_license (verify_request ''LIC-AAAAAAAAAAAAAAAAAAAAAA'' ''device-A'')
                   (calm (at_time 2026 11 4 9 30))
                   (snd (api_generate ''s3cret''
                           (issue_request ''s3cret'' ''2999-01-01'' None ''pro'')
                           (calm (at_time 2026 11 4 9 30)) fresh)))))
       = HwidMismatch"
proof -
  let ?e = "calm (at_time 2026 11 4 9 30)"
  have k: "generate_license_key (token_bytes ?e) = ''LIC-AAAAAAAAAAAAAAAAAAAAAA''"
    by code_simp
  have a: "CHR '' '' \<notin> set ''s3cret''" by simp
  have b: "licenses (db fresh) (generate_license_key (token_bytes ?e)) = None"
    by (simp add: fresh_def)
  have r: "\<not> raises ?e InsertLicense" "\<not> raises ?e SelectLicense"
    "\<not> raises ?e UpdateHwid" "\<not> raises ?e InsertUsage"
    by (simp_all add: calm_def)
  have n: "\<not> datetime_gt (now ?e) (at_time 2999 1 1 0 0)"
    by (simp add: calm_def datetime_gt_def getstate_def at_time_def)
  from issue_then_verify [OF a b r(1) r(2) r(3) r(4) r(2) n n] a b r n show ?thesis
    by (simp add: Let_def k)
qed

text \<open>Issued with the empty string as \<^verbatim>\<open>hwid\<close>, the license is bound to the empty
  string, and the first verification from "device-A" is a mismatch.\<close>

theorem empty_hwid_counterexample:
  "fst (api_generate ''s3cret'' (issue_request ''s3cret'' ''2999-01-01'' (Some '''') ''pro'')
          (calm (at_time 2026 11 4 9 30)) fresh)
     = Generated ''LIC-AAAAAAAAAAAAAAAAAAAAAA'' ''2999-01-01''
   \<and> map_option lic_hwid
        (licenses (db (snd (api_generate ''s3cret''
            (issue_request ''s3cret'' ''2999-01-01'' (Some '''') ''pro'')
            (calm (at_time 2026 11 4 9 30)) fresh))) ''LIC-AAAAAAAAAAAAAAAAAAAAAA'')
       = Some (Some '''')
   \<and> fst (verify_license (verify_request ''LIC-AAAAAAAAAAAAAAAAAAAAAA'' ''device-A'')
            (calm (at_time 2026 11 4 9 30))
            (snd (api_generate ''s3cret''
                    (issue_request ''s3cret'' ''2999-01-01'' (Some '''') ''pro'')
                    (calm (at_time 2026 11 4 9 30)) fresh)))
       = HwidMismatch"
  by code_simp

subsection \<open>The counters after calls of \<^verbatim>\<open>/verify\<close>\<close>

text \<open>
  Claim C7: after \<open>N\<close> successful and \<open>M\<close> failing calls of \<^verbatim>\<open>/verify\<close> the
  snapshot should show \<open>N\<close> verify requests, \<open>M\<close> errors and the success rate
  \<open>N / (N + M)\<close>. The two counters are as claimed (\<open>serve_counts\<close>), the rate is not:
  a failing call is never added to \<^verbatim>\<open>request_count\<close>, so the rate is
  \<open>(N - M) / max N 1\<close> (\<open>serve_success_rate\<close>). Here one call succeeds and one
  fails, on a state fresh but for one license: the snapshot shows one request, one
  verify request, one error, and a success rate of 0 per cent where 50 is due.
\<close>

theorem success_rate_after_one_good_one_bad:
  "fst (serve [(verify_request ''LIC-K'' ''device-A'', calm (at_time 2026 11 4 9 30)),
               (verify_request ''LIC-unknown'' ''device-A'', calm (at_time 2026 11 4 9 30))]
          (holding ''LIC-K'' None ''2999-01-01''))
     = [Valid ''2999-01-01'' (Some ''basic''), NotFound]
   \<and> get_stats (stats (snd (serve
          [(verify_request ''LIC-K'' ''device-A'', calm (at_time 2026 11 4 9 30)),
           (verify_request ''LIC-unknown'' ''device-A'', calm (at_time 2026 11 4 9 30))]
          (holding ''LIC-K'' None ''2999-01-01''))))
     = \<lparr>total_requests = 1, view_verify_requests = 1, view_admin_requests = 0,
        view_error_count = 1, success_rate = 0\<rparr>"
  by code_simp

subsection \<open>Two first verifications at the same time\<close>

text \<open>
  Claim C1: of two concurrent first verifications of one key with different hardware
  ids, at most one should bind. In the code the test for an unbound license is made on
  the row read at line 281 and the \<^verbatim>\<open>UPDATE\<close> of line 293 has no condition on the
  column. Here both threads read the unbound row before either writes: both are
  answered valid, the license is bound to "device-A" and then to "device-B", and a usage
  row is stored for each device.
\<close>

theorem concurrent_first_verifications_both_bind:
  "map_option lic_hwid (licenses (db (holding ''LIC-K'' None ''2999-01-01'')) ''LIC-K'')
     = Some None
   \<and> map answer (fst (run_schedule [0, 1, 0, 1]
           [Arrived (verify_request ''LIC-K'' ''device-A'') (calm (at_time 2026 11 4 9 30)),
            Arrived (verify_request ''LIC-K'' ''device-B'') (calm (at_time 2026 11 4 9 30))]
           (holding ''LIC-K'' None ''2999-01-01'')))
     = [Some (Valid ''2999-01-01'' (Some ''basic'')),
        Some (Valid ''2999-01-01'' (Some ''basic''))]
   \<and> map_option lic_hwid (licenses (db (snd (run_schedule [0, 1, 0]
           [Arrived (verify_request ''LIC-K'' ''device-A'') (calm (at_time 2026 11 4 9 30)),
            Arrived (verify_request ''LIC-K'' ''device-B'') (calm (at_time 2026 11 4 9 30))]
           (holding ''LIC-K'' None ''2999-01-01'')))) ''LIC-K'')
     = Some (Some ''device-A'')
   \<and> map_option lic_hwid (licenses (db (snd (run_schedule [0, 1, 0, 1]
           [Arrived (verify_request ''LIC-K'' ''device-A'') (calm (at_time 2026 11 4 9 30)),
            Arrived (verify_request ''LIC-K'' ''device-B'') (calm (at_time 2026 11 4 9 30))]
           (holding ''LIC-K'' None ''2999-01-01'')))) ''LIC-K'')
     = Some (Some ''device-B'')
   \<and> map log_hwid (usage_logs (db (snd (run_schedule [0, 1, 0, 1]
           [Arrived (verify_request ''LIC-K'' ''device-A'') (calm (at_time 2026 11 4 9 30)),
            Arrived (verify_request ''LIC-K'' ''device-B'') (calm (at_time 2026 11 4 9 30))]
           (holding ''LIC-K'' None ''2999-01-01'')))))
     = [Some ''device-A'', Some ''device-B'']"
  by code_simp

end
